theory Spec2Isabelle
  imports Complex_Main "HOL-Library.Sublist"
begin

section \<open>Values, thrown errors and the platform\<close>

text \<open>
  The values that flow through a checker.  Numbers are the integer-valued ones and NaN;
  a \<open>JBox\<close> is the wrapper object that \<open>Object(p)\<close> makes of a primitive \<open>p\<close>;
  a date carries its time value.  Objects are compared by value.
\<close>

datatype jsval =
    JUndefined
  | JNull
  | JBool bool
  | JNum int
  | JNaN
  | JStr string
  | JArr "jsval list"
  | JObj "(string \<times> jsval) list"
  | JDate int
  | JBox jsval

text \<open>
  A thrown error object: \<open>err_id\<close> stands for the identity of the object,
  \<open>err_kind\<close> for its constructor, and \<open>message\<close> is its \<open>message\<close> property
  (\<open>None\<close> when the property is undefined).
\<close>

record jserr =
  err_id :: nat
  err_kind :: string
  message :: "string option"

text \<open>The test \<open>err.message ? ... : ...\<close>: an undefined or empty message is falsy.\<close>

definition has_message :: "jserr \<Rightarrow> bool" where
  "has_message e = (case message e of None \<Rightarrow> False | Some m \<Rightarrow> m \<noteq> [])"

text \<open>Truthiness of a value (\<open>Boolean(v)\<close>, \<open>!!v\<close>).\<close>

fun js_truthy :: "jsval \<Rightarrow> bool" where
  "js_truthy JUndefined = False"
| "js_truthy JNull = False"
| "js_truthy (JBool b) = b"
| "js_truthy (JNum n) = (n \<noteq> 0)"
| "js_truthy JNaN = False"
| "js_truthy (JStr s) = (s \<noteq> [])"
| "js_truthy (JArr xs) = True"
| "js_truthy (JObj kvs) = True"
| "js_truthy (JDate t) = True"
| "js_truthy (JBox p) = True"

section \<open>Status: path stack, failures, quality\<close>

text \<open>
  \<open>as.Status\<close> of \<open>src/index.js\<close> has the fields \<open>path\<close>, \<open>defs\<close> and
  \<open>failures\<close>; the scoring variant (the second \<open>index.js\<close>, kept in
  \<open>src/checks/and.js\<close>) adds \<open>quality\<close>.  Path segments are strings; a name or key
  that is \<open>null\<close> or \<open>undefined\<close> is \<open>None\<close>.  The quality is a
  number of the platform: a type \<open>'q\<close> with \<open>0\<close>, \<open>1\<close>, \<open>+\<close>, \<open>-\<close> and \<open>/\<close>, of which
  nothing is assumed (for the code, the doubles with their rounding arithmetic).
\<close>

record status =
  path :: "string list"
  defs :: "(string \<times> jsval) list"
  failures :: "string list"

record 'q qstatus = status +
  quality :: 'q

definition new_Status :: status where
  "new_Status = \<lparr>path = [], defs = [], failures = []\<rparr>"

definition new_QStatus :: "'q::zero qstatus" where
  "new_QStatus = \<lparr>path = [], defs = [], failures = [], quality = 0\<rparr>"

text \<open>\<open>_.compact\<close> on a list of names and keys: drops \<open>null\<close>/\<open>undefined\<close> and \<open>''\<close>.\<close>

fun compact :: "string option list \<Rightarrow> string list" where
  "compact [] = []"
| "compact (None # xs) = compact xs"
| "compact (Some s # xs) = (if s = [] then compact xs else s # compact xs)"

text \<open>\<open>Array.prototype.join\<close> on a list of strings.\<close>

fun join :: "string \<Rightarrow> string list \<Rightarrow> string" where
  "join sep [] = []"
| "join sep [x] = x"
| "join sep (x # y # ys) = x @ sep @ join sep (y # ys)"

text \<open>
  \<open>push(name, path)\<close>: \<open>path = _.compact(path.concat(name))\<close> is appended to the
  stack and its length returned.
\<close>

definition push :: "string option \<Rightarrow> string option list \<Rightarrow> 'a status_scheme \<Rightarrow> nat \<times> 'a status_scheme" where
  "push nm keys s =
     (let p = compact (keys @ [nm])
      in (length p, s\<lparr>path := path s @ p\<rparr>))"

text \<open>\<open>pop(count)\<close>: \<open>Array.prototype.pop\<close>, \<open>count\<close> times; popping \<open>[]\<close> does nothing.\<close>

primrec pop_times :: "nat \<Rightarrow> string list \<Rightarrow> string list" where
  "pop_times 0 xs = xs"
| "pop_times (Suc n) xs = pop_times n (butlast xs)"

definition pop :: "nat \<Rightarrow> 'a status_scheme \<Rightarrow> 'a status_scheme" where
  "pop count s = s\<lparr>path := pop_times count (path s)\<rparr>"

text \<open>\<open>path || 'any'\<close>\<close>

definition or_any :: "string \<Rightarrow> string" where
  "or_any p = (if p = [] then ''any'' else p)"

text \<open>
  \<open>failed()\<close> of \<open>src/index.js\<close>.  \<open>_.method('startsWith', path)\<close> applied to a
  recorded failure \<open>f\<close> is \<open>f.startsWith(path)\<close>, that is \<open>prefix path f\<close>.
\<close>

definition failed :: "'a status_scheme \<Rightarrow> string \<times> 'a status_scheme" where
  "failed s =
     (let p = join ''.'' (path s)
      in (or_any p,
          if \<not> list_ex (\<lambda>f. prefix p f) (failures s)
          then s\<lparr>failures := failures s @ [p]\<rparr> else s))"

text \<open>
  \<open>succeeded(result, weight)\<close> of the scoring variant; an undefined weight
  (\<open>None\<close>) counts as 1.
\<close>

definition eff_weight :: "'q::one option \<Rightarrow> 'q" where
  "eff_weight wt = (case wt of None \<Rightarrow> 1 | Some x \<Rightarrow> x)"

definition succeeded ::
  "bool \<Rightarrow> 'q::{one,plus,minus} option \<Rightarrow> ('q, 'a) qstatus_scheme
     \<Rightarrow> string \<times> ('q, 'a) qstatus_scheme" where
  "succeeded result wt s =
     (let weight = eff_weight wt;
          p = join ''.'' (path s)
      in (or_any p,
          if result then s\<lparr>quality := quality s + weight\<rparr>
          else (let s' = s\<lparr>quality := quality s - weight\<rparr>
                in if \<not> list_ex (\<lambda>f. prefix p f) (failures s')
                   then s'\<lparr>failures := failures s' @ [p]\<rparr> else s')))"

section \<open>The hydrator: \<open>as.indirect\<close>, \<open>bindStatus\<close>, \<open>as.check\<close>\<close>

text \<open>
  A raw method is \<open>(value, status) \<rightarrow> result\<close>; it may throw, and it may change the
  status and anything else it can reach (the world \<open>'w\<close>: a spy's counter, say).  A
  hydrated method is \<open>(value, status, key...) \<rightarrow> result\<close>, where the status may be
  missing.  The outcome carries the result (\<open>Inl\<close> a thrown error), the status object
  the call worked on, and the world.

  An object with the three methods is a \<open>methods\<close> record; \<open>as.check\<close> turns a raw
  one into a checker, which also has a \<open>name\<close>.  The second method is called
  \<open>coerce\<close> in \<open>src/index.js\<close> and \<open>cast\<close> in the scoring variant.
\<close>

type_synonym ('s, 'w) outcome = "(jserr + jsval) \<times> 's \<times> 'w"

type_synonym ('s, 'w) raw_method = "jsval \<Rightarrow> 's \<Rightarrow> 'w \<Rightarrow> ('s, 'w) outcome"

type_synonym ('s, 'w) hmethod =
  "jsval \<Rightarrow> 's option \<Rightarrow> string option list \<Rightarrow> 'w \<Rightarrow> ('s, 'w) outcome"

datatype method_name = Matches | Cast | Validate

record 'm methods =
  matches :: 'm
  cast :: 'm
  validate :: 'm

record 'm checker = "'m methods" +
  name :: "string option"

definition result_of :: "('s, 'w) outcome \<Rightarrow> jserr + jsval" where
  "result_of out = fst out"

definition status_of :: "('s, 'w) outcome \<Rightarrow> 's" where
  "status_of out = fst (snd out)"

definition world_of :: "('s, 'w) outcome \<Rightarrow> 'w" where
  "world_of out = snd (snd out)"

text \<open>The outcome is a normal return of a truthy value.\<close>

definition returns_true :: "('s, 'w) outcome \<Rightarrow> bool" where
  "returns_true out = (case result_of out of Inl e \<Rightarrow> False | Inr r \<Rightarrow> js_truthy r)"

text \<open>\<open>check[methodName]\<close>\<close>

fun method_of :: "method_name \<Rightarrow> ('m, 'a) methods_scheme \<Rightarrow> 'm" where
  "method_of Matches c = matches c"
| "method_of Cast c = cast c"
| "method_of Validate c = validate c"

definition indirect :: "(method_name \<Rightarrow> 'm) \<Rightarrow> 'm methods" where
  "indirect getMethod =
     \<lparr>matches = getMethod Matches, cast = getMethod Cast, validate = getMethod Validate\<rparr>"

text \<open>
  \<open>bindStatus\<close> of \<open>src/index.js\<close> (no weight, failures recorded by \<open>failed\<close>).
  \<open>!status.failed()\<close> negates a non-empty string.
\<close>

definition bindStatus0 ::
  "((status, 'w) raw_method, 'a) methods_scheme \<Rightarrow> string option \<Rightarrow> method_name
     \<Rightarrow> (status, 'w) hmethod" where
  "bindStatus0 chk nm m = (\<lambda>value sopt keys w.
     let status = (case sopt of None \<Rightarrow> new_Status | Some s \<Rightarrow> s);
         (count, s1) = push nm keys status
     in case method_of m chk value s1 w of
          (Inr result, s2, w2) \<Rightarrow>
            if m \<noteq> Matches \<or> js_truthy result then (Inr result, pop count s2, w2)
            else (let (p, s3) = failed s2
                  in (Inr (JBool (\<not> js_truthy (JStr p))), pop count s3, w2))
        | (Inl err, s2, w2) \<Rightarrow>
            (case message err of
               None \<Rightarrow> (Inl err, pop count s2, w2)
             | Some msg \<Rightarrow>
                 if msg = [] then (Inl err, pop count s2, w2)
                 else (let (p, s3) = failed s2
                       in (Inl (err\<lparr>message := Some (msg @ '' at '' @ p)\<rparr>),
                           pop count s3, w2))))"

definition check0 ::
  "(status, 'w) raw_method methods \<Rightarrow> string option \<Rightarrow> (status, 'w) hmethod checker" where
  "check0 chk nm = methods.extend (indirect (bindStatus0 chk nm)) (checker.fields nm)"

text \<open>\<open>bindStatus\<close> of the scoring variant (weight, outcome recorded by \<open>succeeded\<close>).\<close>

definition bindStatus ::
  "(('q::{zero,one,plus,minus,inverse} qstatus, 'w) raw_method, 'a) methods_scheme \<Rightarrow> string option \<Rightarrow> 'q option \<Rightarrow> method_name
     \<Rightarrow> ('q qstatus, 'w) hmethod" where
  "bindStatus chk nm weight methodName = (\<lambda>value sopt keys w.
     let status = (case sopt of None \<Rightarrow> new_QStatus | Some s \<Rightarrow> s);
         (count, s1) = push nm keys status
     in case method_of methodName chk value s1 w of
          (Inr result, s2, w2) \<Rightarrow>
            (let (p, s3) = succeeded (methodName \<noteq> Matches \<or> js_truthy result) weight s2
             in (Inr result, pop count s3, w2))
        | (Inl err, s2, w2) \<Rightarrow>
            (case message err of
               None \<Rightarrow> (Inl err, pop count s2, w2)
             | Some msg \<Rightarrow>
                 if msg = [] then (Inl err, pop count s2, w2)
                 else (let (p, s3) = succeeded False weight s2
                       in (Inl (err\<lparr>message := Some (msg @ '' at '' @ p)\<rparr>),
                           pop count s3, w2))))"

definition check ::
  "('q::{zero,one,plus,minus,inverse} qstatus, 'w) raw_method methods \<Rightarrow> string option \<Rightarrow> 'q option
     \<Rightarrow> ('q qstatus, 'w) hmethod checker" where
  "check chk nm weight =
     methods.extend (indirect (bindStatus chk nm weight)) (checker.fields nm)"

section \<open>Logical conjunction (\<open>src/checks/and.js\<close>)\<close>

text \<open>
  The raw object that \<open>and\<close> hands to \<open>as.check\<close>, for \<open>left = this\<close> and the
  resolved \<open>right\<close>.  \<open>a && b\<close> yields \<open>a\<close> when \<open>a\<close> is falsy, without evaluating
  \<open>b\<close>; a throw anywhere ends the evaluation.
\<close>

definition and_raw ::
  "('q::{zero,one,plus,minus,inverse} qstatus, 'w) hmethod checker \<Rightarrow> ('q qstatus, 'w) hmethod checker
     \<Rightarrow> ('q qstatus, 'w) raw_method methods" where
  "and_raw left right =
     \<lparr>matches = (\<lambda>value status w.
        case matches left value (Some status) [] w of
          (Inl e, s1, w1) \<Rightarrow> (Inl e, s1, w1)
        | (Inr r, s1, w1) \<Rightarrow>
            if \<not> js_truthy r then (Inr r, s1, w1)
            else (case cast left value (Some s1) [] w1 of
                    (Inl e, s2, w2) \<Rightarrow> (Inl e, s2, w2)
                  | (Inr c, s2, w2) \<Rightarrow> matches right c (Some s2) [name left] w2)),
      cast = (\<lambda>value status w.
        case cast left value (Some status) [] w of
          (Inl e, s1, w1) \<Rightarrow> (Inl e, s1, w1)
        | (Inr c, s1, w1) \<Rightarrow> cast right c (Some s1) [name left] w1),
      validate = (\<lambda>value status w.
        case validate left value (Some status) [] w of
          (Inl e, s1, w1) \<Rightarrow> (Inl e, s1, w1)
        | (Inr c, s1, w1) \<Rightarrow> validate right c (Some s1) [name left] w1)\<rparr>"

text \<open>
  The function \<open>as\<close> is itself a checker: \<open>as.matches = _.constant(true)\<close>,
  \<open>as.cast = as.validate = _.identity\<close>, hydrated by \<open>as.check(as, null, 0)\<close>
  (by \<open>as.check(as)\<close> in \<open>src/index.js\<close>).  Its methods are bound with the name
  given to \<open>as.check\<close>; the assignment \<open>check.name = name\<close> does not change the
  \<open>name\<close> of a function, which stays \<open>'as'\<close>.
\<close>

definition as_raw :: "('s, 'w) raw_method methods" where
  "as_raw =
     \<lparr>matches = (\<lambda>value status w. (Inr (JBool True), status, w)),
      cast = (\<lambda>value status w. (Inr value, status, w)),
      validate = (\<lambda>value status w. (Inr value, status, w))\<rparr>"

definition as_checker :: "('q::{zero,one,plus,minus,inverse} qstatus, 'w) hmethod checker" where
  "as_checker = (check as_raw None (Some 0))\<lparr>name := Some ''as''\<rparr>"

definition as_checker0 :: "(status, 'w) hmethod checker" where
  "as_checker0 = (check0 as_raw None)\<lparr>name := Some ''as''\<rparr>"

section \<open>Predicates and coercions of the platform\<close>

text \<open>
  What the platform does outside the modelled values is a parameter: the number a
  string denotes, the text of a date, \<open>new Date(v)\<close>, \<open>JSON.parse\<close> and
  \<open>JSON.stringify\<close>.
\<close>

record platform =
  StringToNumber :: "string \<Rightarrow> jsval"
  DateToString :: "int \<Rightarrow> string"
  newDate :: "jsval \<Rightarrow> jsval"
  JSON_parse :: "string \<Rightarrow> jserr + jsval"
  JSON_stringify :: "jsval \<Rightarrow> jsval"

fun isUndefined :: "jsval \<Rightarrow> bool" where
  "isUndefined JUndefined = True"
| "isUndefined v = False"

fun isNull :: "jsval \<Rightarrow> bool" where
  "isNull JNull = True"
| "isNull v = False"

fun isObject :: "jsval \<Rightarrow> bool" where
  "isObject (JArr xs) = True"
| "isObject (JObj kvs) = True"
| "isObject (JDate t) = True"
| "isObject (JBox p) = True"
| "isObject v = False"

fun isArray :: "jsval \<Rightarrow> bool" where
  "isArray (JArr xs) = True"
| "isArray v = False"

fun isBoolean :: "jsval \<Rightarrow> bool" where
  "isBoolean (JBool b) = True"
| "isBoolean (JBox (JBool b)) = True"
| "isBoolean v = False"

fun isString :: "jsval \<Rightarrow> bool" where
  "isString (JStr s) = True"
| "isString (JBox (JStr s)) = True"
| "isString v = False"

fun isNumber :: "jsval \<Rightarrow> bool" where
  "isNumber (JNum n) = True"
| "isNumber JNaN = True"
| "isNumber (JBox (JNum n)) = True"
| "isNumber (JBox JNaN) = True"
| "isNumber v = False"

fun isDate :: "jsval \<Rightarrow> bool" where
  "isDate (JDate t) = True"
| "isDate v = False"

text \<open>\<open>Object(v)\<close>\<close>

definition js_Object :: "jsval \<Rightarrow> jsval" where
  "js_Object v =
     (if isObject v then v
      else if isUndefined v \<or> isNull v then JObj []
      else JBox v)"

text \<open>\<open>_.castArray(v)\<close>\<close>

definition castArray :: "jsval \<Rightarrow> jsval" where
  "castArray v = (if isArray v then v else JArr [v])"

text \<open>\<open>Boolean(v)\<close>\<close>

definition js_Boolean :: "jsval \<Rightarrow> jsval" where
  "js_Boolean v = JBool (js_truthy v)"

text \<open>
  Decimal digits of an integer, as \<open>String(n)\<close> prints it (for \<open>|n| < 10^21\<close>;
  larger numbers print with an exponent).
\<close>

fun digits :: "nat \<Rightarrow> string" where
  "digits n =
     (if n < 10 then [''0123456789'' ! n]
      else digits (n div 10) @ [''0123456789'' ! (n mod 10)])"

definition int_to_string :: "int \<Rightarrow> string" where
  "int_to_string i = (if i < 0 then ''-'' @ digits (nat (- i)) else digits (nat i))"

text \<open>
  \<open>String(v)\<close>.  An array prints its elements joined by commas, \<open>null\<close> and
  \<open>undefined\<close> elements as the empty string.
\<close>

fun js_String :: "platform \<Rightarrow> jsval \<Rightarrow> string" where
  "js_String P JUndefined = ''undefined''"
| "js_String P JNull = ''null''"
| "js_String P (JBool b) = (if b then ''true'' else ''false'')"
| "js_String P (JNum n) = int_to_string n"
| "js_String P JNaN = ''NaN''"
| "js_String P (JStr s) = s"
| "js_String P (JArr xs) =
     join '','' (map (\<lambda>x. if isUndefined x \<or> isNull x then [] else js_String P x) xs)"
| "js_String P (JObj kvs) = ''[object Object]''"
| "js_String P (JDate t) = DateToString P t"
| "js_String P (JBox p) = js_String P p"

text \<open>\<open>Number(v)\<close>\<close>

fun js_Number :: "platform \<Rightarrow> jsval \<Rightarrow> jsval" where
  "js_Number P JUndefined = JNaN"
| "js_Number P JNull = JNum 0"
| "js_Number P (JBool b) = JNum (if b then 1 else 0)"
| "js_Number P (JNum n) = JNum n"
| "js_Number P JNaN = JNaN"
| "js_Number P (JStr s) = StringToNumber P s"
| "js_Number P (JArr xs) = StringToNumber P (js_String P (JArr xs))"
| "js_Number P (JObj kvs) = StringToNumber P (js_String P (JObj kvs))"
| "js_Number P (JDate t) = JNum t"
| "js_Number P (JBox p) = js_Number P p"

section \<open>The static checkers\<close>

text \<open>
  Modelled from the spec: the static checker factory (\<open>./check/static\<close>,
  \<open>./checks/static\<close>) is not among the sources.  The spec has it pair a name, a
  predicate, a coercion function, a failure message and an optional weight into a leaf
  checker: \<open>matches\<close> is the predicate, \<open>coerce\<close>/\<open>cast\<close> the coercion function, and
  \<open>validate\<close> delegates to the coercion; the hydrator gives it its name and weight.
\<close>

definition static_raw :: "(jsval \<Rightarrow> jsval) \<Rightarrow> (jsval \<Rightarrow> jsval) \<Rightarrow> ('s, 'w) raw_method methods" where
  "static_raw predicate coerce =
     \<lparr>matches = (\<lambda>value status w. (Inr (predicate value), status, w)),
      cast = (\<lambda>value status w. (Inr (coerce value), status, w)),
      validate = (\<lambda>value status w. (Inr (coerce value), status, w))\<rparr>"

definition staticCheck0 ::
  "string \<Rightarrow> (jsval \<Rightarrow> jsval) \<Rightarrow> (jsval \<Rightarrow> jsval) \<Rightarrow> string \<Rightarrow> (status, 'w) hmethod checker" where
  "staticCheck0 nm predicate coerce msg = check0 (static_raw predicate coerce) (Some nm)"

definition staticCheck ::
  "string \<Rightarrow> (jsval \<Rightarrow> jsval) \<Rightarrow> (jsval \<Rightarrow> jsval) \<Rightarrow> string \<Rightarrow> 'q::{zero,one,plus,minus,inverse} option
     \<Rightarrow> ('q qstatus, 'w) hmethod checker" where
  "staticCheck nm predicate coerce msg weight = check (static_raw predicate coerce) (Some nm) weight"

text \<open>
  \<open>isJson\<close>: \<open>_.isString(value) && JSON.parse(value) && true\<close>, \<open>false\<close> when
  \<open>JSON.parse\<close> throws.  A string that parses to a falsy value yields that value.
\<close>

definition isJson :: "platform \<Rightarrow> jsval \<Rightarrow> jsval" where
  "isJson P v =
     (if \<not> isString v then JBool False
      else (case JSON_parse P (js_String P v) of
              Inl err \<Rightarrow> JBool False
            | Inr x \<Rightarrow> if js_truthy x then JBool True else x))"

text \<open>The coercion functions written out in the sources.\<close>

definition date_cast :: "platform \<Rightarrow> jsval \<Rightarrow> jsval" where
  "date_cast P v = (if isDate v then v else newDate P v)"

definition json_cast :: "platform \<Rightarrow> jsval \<Rightarrow> jsval" where
  "json_cast P v = (if js_truthy (isJson P v) then v else JSON_stringify P v)"

definition string_cast :: "platform \<Rightarrow> jsval \<Rightarrow> jsval" where
  "string_cast P v = (if isUndefined v \<or> isNull v then JStr [] else JStr (js_String P v))"

text \<open>The static checkers of \<open>src/index.js\<close> (lines 144 to 166).\<close>

definition error0 :: "(status, 'w) hmethod checker" where
  "error0 = staticCheck0 ''error'' (\<lambda>v. JBool (isUndefined v)) (\<lambda>v. JUndefined) ''Not allowed''"

definition object0 :: "(status, 'w) hmethod checker" where
  "object0 = staticCheck0 ''object'' (\<lambda>v. JBool (isObject v)) js_Object ''Not an object''"

definition array0 :: "(status, 'w) hmethod checker" where
  "array0 = staticCheck0 ''array'' (\<lambda>v. JBool (isArray v)) castArray ''Not an array''"

definition boolean0 :: "(status, 'w) hmethod checker" where
  "boolean0 = staticCheck0 ''boolean'' (\<lambda>v. JBool (isBoolean v)) js_Boolean ''Not a boolean''"

definition string0 :: "platform \<Rightarrow> (status, 'w) hmethod checker" where
  "string0 P = staticCheck0 ''string'' (\<lambda>v. JBool (isString v)) (\<lambda>v. JStr (js_String P v))
     ''Not a string''"

definition number0 :: "platform \<Rightarrow> (status, 'w) hmethod checker" where
  "number0 P = staticCheck0 ''number'' (\<lambda>v. JBool (isNumber v)) (js_Number P) ''Not a number''"

definition date0 :: "platform \<Rightarrow> (status, 'w) hmethod checker" where
  "date0 P = staticCheck0 ''date'' (\<lambda>v. JBool (isDate v)) (date_cast P) ''Not a date''"

definition json0 :: "platform \<Rightarrow> (status, 'w) hmethod checker" where
  "json0 P = staticCheck0 ''json'' (isJson P) (json_cast P) ''Not JSON''"

text \<open>The static checkers of the scoring variant (\<open>statics\<close>, with \<open>TYPE_WEIGHT\<close>).\<close>

text \<open>\<open>TYPE_WEIGHT = 0.5\<close>, written with the division of the number type.\<close>

definition TYPE_WEIGHT :: "'q::{one,plus,inverse}" where
  "TYPE_WEIGHT = 1 / (1 + 1)"

definition statics_error :: "('q::{zero,one,plus,minus,inverse} qstatus, 'w) hmethod checker" where
  "statics_error =
     staticCheck ''error'' (\<lambda>v. JBool (isUndefined v)) (\<lambda>v. JUndefined) ''Not allowed'' None"

definition statics_object :: "('q::{zero,one,plus,minus,inverse} qstatus, 'w) hmethod checker" where
  "statics_object =
     staticCheck ''object'' (\<lambda>v. JBool (isObject v)) js_Object ''Not an object'' (Some TYPE_WEIGHT)"

definition statics_array :: "('q::{zero,one,plus,minus,inverse} qstatus, 'w) hmethod checker" where
  "statics_array =
     staticCheck ''array'' (\<lambda>v. JBool (isArray v)) castArray ''Not an array'' (Some TYPE_WEIGHT)"

definition statics_boolean :: "('q::{zero,one,plus,minus,inverse} qstatus, 'w) hmethod checker" where
  "statics_boolean =
     staticCheck ''boolean'' (\<lambda>v. JBool (isBoolean v)) js_Boolean ''Not a boolean'' (Some TYPE_WEIGHT)"

definition statics_string :: "platform \<Rightarrow> ('q::{zero,one,plus,minus,inverse} qstatus, 'w) hmethod checker" where
  "statics_string P =
     staticCheck ''string'' (\<lambda>v. JBool (isString v)) (string_cast P) ''Not a string'' (Some TYPE_WEIGHT)"

definition statics_number :: "platform \<Rightarrow> ('q::{zero,one,plus,minus,inverse} qstatus, 'w) hmethod checker" where
  "statics_number P =
     staticCheck ''number'' (\<lambda>v. JBool (isNumber v)) (js_Number P) ''Not a number'' (Some TYPE_WEIGHT)"

definition statics_date :: "platform \<Rightarrow> ('q::{zero,one,plus,minus,inverse} qstatus, 'w) hmethod checker" where
  "statics_date P =
     staticCheck ''date'' (\<lambda>v. JBool (isDate v)) (date_cast P) ''Not a date'' (Some TYPE_WEIGHT)"

definition statics_json :: "platform \<Rightarrow> ('q::{zero,one,plus,minus,inverse} qstatus, 'w) hmethod checker" where
  "statics_json P = staticCheck ''json'' (isJson P) (json_cast P) ''Not JSON'' (Some TYPE_WEIGHT)"

section \<open>The dispatcher \<open>as\<close>\<close>

text \<open>
  A schema description, as \<open>as1\<close> tells them apart: the built-in constructors and
  \<open>JSON\<close>, an array literal, a regular expression, any other function that is not a
  checker, a checker, an object literal, and any other value.
\<close>

datatype 'c desc =
    DError | DArray | DObject | DBoolean | DString | DNumber | DDate | DFunction | DJSON
  | DArr "'c desc list"
  | DRegExp string
  | DFun nat
  | DChecker 'c
  | DObj "(string \<times> 'c desc) list"
  | DVal jsval

text \<open>
  The checks whose files are not among the sources are a table, as in the code
  (\<open>as.checks\<close>, \<open>require('./checks')\<close>): each takes \<open>this\<close> and its arguments.
\<close>

record 'c checks =
  or_c :: "'c \<Rightarrow> 'c desc list \<Rightarrow> 'c"
  with_c :: "'c \<Rightarrow> 'c desc list \<Rightarrow> 'c"
  regexp_c :: "'c \<Rightarrow> 'c desc list \<Rightarrow> 'c"
  eq_c :: "'c \<Rightarrow> 'c desc list \<Rightarrow> 'c"
  instanceof_c :: "'c \<Rightarrow> 'c desc list \<Rightarrow> 'c"
  function_c :: "'c \<Rightarrow> 'c desc list \<Rightarrow> 'c"

text \<open>\<open>as1\<close> and \<open>as\<close> of \<open>src/index.js\<close>.\<close>

fun as1_0 ::
  "(status, 'w) hmethod checker checks \<Rightarrow> platform \<Rightarrow> (status, 'w) hmethod checker desc
     \<Rightarrow> (status, 'w) hmethod checker" where
  "as1_0 T P DError = error0"
| "as1_0 T P DArray = array0"
| "as1_0 T P DObject = object0"
| "as1_0 T P DBoolean = boolean0"
| "as1_0 T P DString = string0 P"
| "as1_0 T P DNumber = number0 P"
| "as1_0 T P DDate = date0 P"
| "as1_0 T P DFunction = function_c T as_checker0 []"
| "as1_0 T P DJSON = json0 P"
| "as1_0 T P (DArr ds) = with_c T array0 [DArr ds]"
| "as1_0 T P (DRegExp r) = regexp_c T as_checker0 [DRegExp r]"
| "as1_0 T P (DFun f) = with_c T object0 [DFun f]"
| "as1_0 T P (DChecker c) = c"
| "as1_0 T P (DObj kds) = with_c T object0 [DObj kds]"
| "as1_0 T P (DVal v) =
     (if isArray v then with_c T array0 [DVal v]
      else if isObject v then with_c T object0 [DVal v]
      else eq_c T as_checker0 [DVal v])"

fun as0 ::
  "(status, 'w) hmethod checker checks \<Rightarrow> platform \<Rightarrow> (status, 'w) hmethod checker desc list
     \<Rightarrow> (status, 'w) hmethod checker" where
  "as0 T P [] = as_checker0"
| "as0 T P [what] = as1_0 T P what"
| "as0 T P (what # rest) = or_c T (as1_0 T P what) [DArr rest]"

text \<open>\<open>as1\<close> and \<open>as\<close> of the scoring variant.\<close>

fun as1 ::
  "('q::{zero,one,plus,minus,inverse} qstatus, 'w) hmethod checker checks \<Rightarrow> platform \<Rightarrow> ('q qstatus, 'w) hmethod checker desc
     \<Rightarrow> ('q qstatus, 'w) hmethod checker" where
  "as1 T P DError = statics_error"
| "as1 T P DArray = statics_array"
| "as1 T P DObject = statics_object"
| "as1 T P DBoolean = statics_boolean"
| "as1 T P DString = statics_string P"
| "as1 T P DNumber = statics_number P"
| "as1 T P DDate = statics_date P"
| "as1 T P DFunction = function_c T as_checker []"
| "as1 T P DJSON = statics_json P"
| "as1 T P (DArr ds) = with_c T statics_array [DArr ds]"
| "as1 T P (DRegExp r) = regexp_c T as_checker [DRegExp r]"
| "as1 T P (DFun f) = instanceof_c T as_checker [DFun f]"
| "as1 T P (DChecker c) = c"
| "as1 T P (DObj kds) = with_c T statics_object [DObj kds]"
| "as1 T P (DVal v) =
     (if isArray v then with_c T statics_array [DVal v]
      else if isObject v then with_c T statics_object [DVal v]
      else eq_c T as_checker [DVal v])"

fun as ::
  "('q::{zero,one,plus,minus,inverse} qstatus, 'w) hmethod checker checks \<Rightarrow> platform \<Rightarrow> ('q qstatus, 'w) hmethod checker desc list
     \<Rightarrow> ('q qstatus, 'w) hmethod checker" where
  "as T P [] = as_checker"
| "as T P [what] = as1 T P what"
| "as T P (what # rest) = or_c T (as1 T P what) [DChecker (as T P rest)]"

text \<open>\<open>and\<close> of \<open>src/checks/and.js\<close>: \<open>left\<close> is \<open>this\<close>, \<open>right = as.apply(null, arguments)\<close>.\<close>

definition and_c ::
  "('q::{zero,one,plus,minus,inverse} qstatus, 'w) hmethod checker checks \<Rightarrow> platform \<Rightarrow> ('q qstatus, 'w) hmethod checker
     \<Rightarrow> ('q qstatus, 'w) hmethod checker desc list \<Rightarrow> ('q qstatus, 'w) hmethod checker" where
  "and_c T P left what =
     (let right = as T P what
      in check (and_raw left right) None (Some 0))"

section \<open>Logical disjunction\<close>

text \<open>
  Modelled from the spec: the disjunction (\<open>./check/or\<close>, \<open>./checks/or\<close>) is not
  among the sources.  The spec has \<open>left.or(descriptions...)\<close> accept checkers or
  descriptions that the dispatcher resolves, as \<open>and\<close> does, and return a logical
  checker, without a name and of weight 0: its \<open>matches\<close> succeeds if any branch
  matches, tried in argument order; its \<open>coerce\<close> applies the first branch that
  matches, or the first branch if none matches; \<open>validate\<close> likewise.
\<close>

definition or_raw ::
  "('s, 'w) hmethod checker \<Rightarrow> ('s, 'w) hmethod checker \<Rightarrow> ('s, 'w) raw_method methods" where
  "or_raw left right =
     \<lparr>matches = (\<lambda>value status w.
        case matches left value (Some status) [] w of
          (Inl e, s1, w1) \<Rightarrow> (Inl e, s1, w1)
        | (Inr r, s1, w1) \<Rightarrow>
            if js_truthy r then (Inr r, s1, w1)
            else matches right value (Some s1) [] w1),
      cast = (\<lambda>value status w.
        case matches left value (Some status) [] w of
          (Inl e, s1, w1) \<Rightarrow> (Inl e, s1, w1)
        | (Inr r, s1, w1) \<Rightarrow>
            if js_truthy r then cast left value (Some s1) [] w1
            else (case matches right value (Some s1) [] w1 of
                    (Inl e, s2, w2) \<Rightarrow> (Inl e, s2, w2)
                  | (Inr r2, s2, w2) \<Rightarrow>
                      if js_truthy r2 then cast right value (Some s2) [] w2
                      else cast left value (Some s2) [] w2)),
      validate = (\<lambda>value status w.
        case matches left value (Some status) [] w of
          (Inl e, s1, w1) \<Rightarrow> (Inl e, s1, w1)
        | (Inr r, s1, w1) \<Rightarrow>
            if js_truthy r then validate left value (Some s1) [] w1
            else (case matches right value (Some s1) [] w1 of
                    (Inl e, s2, w2) \<Rightarrow> (Inl e, s2, w2)
                  | (Inr r2, s2, w2) \<Rightarrow>
                      if js_truthy r2 then validate right value (Some s2) [] w2
                      else validate left value (Some s2) [] w2))\<rparr>"

definition disjunction0 ::
  "(status, 'w) hmethod checker \<Rightarrow> (status, 'w) hmethod checker \<Rightarrow> (status, 'w) hmethod checker" where
  "disjunction0 left right = check0 (or_raw left right) None"


text \<open>
  The method \<open>or\<close> as the spec has it, for each variant of the dispatcher:
  \<open>left\<close> is \<open>this\<close>, and the descriptions are resolved by the dispatcher.
\<close>

definition or_spec0 ::
  "(status, 'w) hmethod checker checks \<Rightarrow> platform \<Rightarrow> (status, 'w) hmethod checker
     \<Rightarrow> (status, 'w) hmethod checker desc list \<Rightarrow> (status, 'w) hmethod checker" where
  "or_spec0 T P left what = disjunction0 left (as0 T P what)"


section \<open>Vocabulary of the statements\<close>

text \<open>
  The status a raw method runs on: the caller's status, or a fresh one, after the push;
  and the number of segments that push adds.
\<close>

definition entered0 :: "string option \<Rightarrow> string option list \<Rightarrow> status option \<Rightarrow> status" where
  "entered0 nm keys sopt = snd (push nm keys (case sopt of None \<Rightarrow> new_Status | Some s \<Rightarrow> s))"

definition entered :: "string option \<Rightarrow> string option list \<Rightarrow> 'q::{zero,one,plus,minus,inverse} qstatus option \<Rightarrow> 'q qstatus" where
  "entered nm keys sopt = snd (push nm keys (case sopt of None \<Rightarrow> new_QStatus | Some s \<Rightarrow> s))"

definition pushed :: "string option \<Rightarrow> string option list \<Rightarrow> nat" where
  "pushed nm keys = length (compact (keys @ [nm]))"

text \<open>
  The checkers of the scoring variant that the sources can build: a raw object whose
  methods hand the path stack back at the length they found it, hydrated by
  \<open>as.check\<close>; such a checker under another name (the function \<open>as\<close> keeps
  its own); and a conjunction of such checkers.
\<close>

inductive composed :: "('q::{zero,one,plus,minus,inverse} qstatus, 'w) hmethod checker \<Rightarrow> bool" where
  hydrated:
    "(\<And>m v s w. length (path (status_of (method_of m raw v s w))) = length (path s))
       \<Longrightarrow> composed (check raw nm wt)"
| named:
    "composed c \<Longrightarrow> composed (c\<lparr>name := nm\<rparr>)"
| conjunction:
    "composed left \<Longrightarrow> composed (as T P what) \<Longrightarrow> composed (and_c T P left what)"

text \<open>
  What a hydrated method of the scoring variant records for the outcome of its raw
  method: a success, a failure, or nothing (a thrown error without a message is passed
  on before \<open>succeeded\<close> is reached).
\<close>

definition recorded :: "method_name \<Rightarrow> jserr + jsval \<Rightarrow> bool option" where
  "recorded m res =
     (case res of
        Inr r \<Rightarrow> Some (m \<noteq> Matches \<or> js_truthy r)
      | Inl e \<Rightarrow> if has_message e then Some False else None)"

text \<open>One invocation's entry in the walk: whether it succeeded, and its weight.\<close>

definition own_event :: "method_name \<Rightarrow> 'q::{zero,one,plus,minus,inverse} option \<Rightarrow> jserr + jsval \<Rightarrow> (bool \<times> 'q) list" where
  "own_event m wt res =
     (case recorded m res of None \<Rightarrow> [] | Some ok \<Rightarrow> [(ok, eff_weight wt)])"

text \<open>
  The quality after the entries of a walk, from the quality \<open>q\<close> before it:
  \<open>quality += weight\<close> for a success and \<open>quality -= weight\<close> for a failure, one
  after the other.
\<close>

fun accumulate :: "'q::{plus,minus} \<Rightarrow> (bool \<times> 'q) list \<Rightarrow> 'q" where
  "accumulate q [] = q"
| "accumulate q ((ok, x) # evs) = accumulate (if ok then q + x else q - x) evs"

text \<open>
  A checker as a tree: a raw object hydrated with a name and a weight, or the
  conjunction of two trees.  \<open>build\<close> is the checker the code makes of it.
\<close>

datatype ('q, 'w) ctree =
    Leaf "('q qstatus, 'w) raw_method methods" "string option" "'q option"
  | Conj "('q, 'w) ctree" "('q, 'w) ctree"

fun build ::
  "('q::{zero,one,plus,minus,inverse} qstatus, 'w) hmethod checker checks \<Rightarrow> platform \<Rightarrow> ('q, 'w) ctree \<Rightarrow> ('q qstatus, 'w) hmethod checker" where
  "build T P (Leaf raw nm wt) = check raw nm wt"
| "build T P (Conj a b) = and_c T P (build T P a) [DChecker (build T P b)]"

text \<open>
  The invocations of a walk, in the order in which they finish: those of the
  sub-checkers that the conjunction calls, each in the status and world it is called in,
  and then the conjunction's own.
\<close>

fun events ::
  "('q::{zero,one,plus,minus,inverse} qstatus, 'w) hmethod checker checks \<Rightarrow> platform \<Rightarrow> method_name \<Rightarrow> ('q, 'w) ctree \<Rightarrow> jsval
     \<Rightarrow> 'q qstatus option \<Rightarrow> string option list \<Rightarrow> 'w \<Rightarrow> (bool \<times> 'q) list" where
  "events T P m (Leaf raw nm wt) v sopt keys w =
     own_event m wt (result_of (method_of m raw v (entered nm keys sopt) w))"
| "events T P m (Conj a b) v sopt keys w =
     (let s = entered None keys sopt
      in (case m of
            Matches \<Rightarrow>
              events T P Matches a v (Some s) [] w @
              (let ra = matches (build T P a) v (Some s) [] w
               in if returns_true ra
                  then events T P Cast a v (Some (status_of ra)) [] (world_of ra) @
                    (let rc = cast (build T P a) v (Some (status_of ra)) [] (world_of ra)
                     in case result_of rc of
                          Inl e \<Rightarrow> []
                        | Inr c \<Rightarrow>
                            events T P Matches b c (Some (status_of rc)) [name (build T P a)]
                              (world_of rc))
                  else [])
          | Cast \<Rightarrow>
              events T P Cast a v (Some s) [] w @
              (let rc = cast (build T P a) v (Some s) [] w
               in case result_of rc of
                    Inl e \<Rightarrow> []
                  | Inr c \<Rightarrow>
                      events T P Cast b c (Some (status_of rc)) [name (build T P a)] (world_of rc))
          | Validate \<Rightarrow>
              events T P Validate a v (Some s) [] w @
              (let rc = validate (build T P a) v (Some s) [] w
               in case result_of rc of
                    Inl e \<Rightarrow> []
                  | Inr c \<Rightarrow>
                      events T P Validate b c (Some (status_of rc)) [name (build T P a)]
                        (world_of rc)))
         @ own_event m (Some 0)
             (result_of (method_of m (and_raw (build T P a) (build T P b)) v s w)))"

text \<open>The raw methods at the leaves leave the quality to the hydrator.\<close>

fun quality_kept :: "('q::{zero,one,plus,minus,inverse}, 'w) ctree \<Rightarrow> bool" where
  "quality_kept (Leaf raw nm wt) =
     (\<forall>m v s w. quality (status_of (method_of m raw v s w)) = quality s)"
| "quality_kept (Conj a b) = (quality_kept a \<and> quality_kept b)"





text \<open>
  The \<open>matches\<close> of the checker is a predicate of the value alone: it returns, and its
  result is truthy exactly when \<open>p\<close> holds, in every status and world.
\<close>

definition decides :: "('s, 'w) hmethod checker \<Rightarrow> (jsval \<Rightarrow> bool) \<Rightarrow> bool" where
  "decides c p =
     (\<forall>v sopt keys w. \<exists>r. result_of (matches c v sopt keys w) = Inr r \<and> js_truthy r = p v)"

text \<open>
  A table of checks and a platform for the examples: each check returns its \<open>this\<close>
  (so \<open>with\<close> adds nothing to the checker it refines).
\<close>

definition example_checks :: "'c checks" where
  "example_checks =
     \<lparr>or_c = (\<lambda>this ds. this), with_c = (\<lambda>this ds. this), regexp_c = (\<lambda>this ds. this),
      eq_c = (\<lambda>this ds. this), instanceof_c = (\<lambda>this ds. this),
      function_c = (\<lambda>this ds. this)\<rparr>"

definition example_platform :: platform where
  "example_platform =
     \<lparr>StringToNumber = (\<lambda>s. JNaN), DateToString = (\<lambda>t. ''Invalid Date''),
      newDate = (\<lambda>v. JDate 0), JSON_parse = (\<lambda>s. Inr JNull),
      JSON_stringify = (\<lambda>v. JUndefined)\<rparr>"

text \<open>
  A table whose \<open>or\<close> is the \<open>or\<close> of the spec, resolving its descriptions with the
  other entries of the table, for each variant.
\<close>

definition with_or0 ::
  "(status, 'w) hmethod checker checks \<Rightarrow> platform \<Rightarrow> (status, 'w) hmethod checker checks" where
  "with_or0 B P = B\<lparr>or_c := (\<lambda>left what. disjunction0 left (as0 B P what))\<rparr>"


text \<open>
  A spy for the examples: a checker that counts the calls of its raw methods in the
  world, a natural number.  The examples take the rationals as numbers.
\<close>

definition spy :: "(rat qstatus, nat) hmethod checker" where
  "spy = check
     \<lparr>matches = (\<lambda>value status n. (Inr (JBool True), status, Suc n)),
      cast = (\<lambda>value status n. (Inr value, status, Suc n)),
      validate = (\<lambda>value status n. (Inr value, status, Suc n))\<rparr> (Some ''spy'') (Some 1)"

text \<open>A checker for the examples whose raw methods throw an error with a message.\<close>

definition boom :: jserr where
  "boom = \<lparr>err_id = 7, err_kind = ''TypeError'', message = Some ''boom''\<rparr>"

definition thrower_raw :: "('s, 'w) raw_method methods" where
  "thrower_raw =
     \<lparr>matches = (\<lambda>value status w. (Inl boom, status, w)),
      cast = (\<lambda>value status w. (Inl boom, status, w)),
      validate = (\<lambda>value status w. (Inl boom, status, w))\<rparr>"

text \<open>
  A checker for the examples whose raw methods throw an error without a message, as
  \<open>throw new Error()\<close> does.
\<close>

definition silent :: jserr where
  "silent = \<lparr>err_id = 8, err_kind = ''Error'', message = Some []\<rparr>"

definition silent_raw :: "('s, 'w) raw_method methods" where
  "silent_raw =
     \<lparr>matches = (\<lambda>value status w. (Inl silent, status, w)),
      cast = (\<lambda>value status w. (Inl silent, status, w)),
      validate = (\<lambda>value status w. (Inl silent, status, w))\<rparr>"


section \<open>Basic facts about the status operations\<close>

lemma pop_times_take: "pop_times n xs = take (length xs - n) xs"
proof (induction n arbitrary: xs)
  case 0
  show ?case by simp
next
  case (Suc n)
  show ?case by (simp add: Suc.IH butlast_conv_take)
qed

lemma pop_times_append: "pop_times (length ys) (xs @ ys) = xs"
  by (simp add: pop_times_take)

lemma path_push: "path (snd (push nm keys s)) = path s @ compact (keys @ [nm])"
  by (simp add: push_def Let_def)

lemma count_push: "fst (push nm keys s) = length (compact (keys @ [nm]))"
  by (simp add: push_def Let_def)

lemma path_pop: "path (pop n s) = pop_times n (path s)"
  by (simp add: pop_def)

lemma path_failed: "path (snd (failed s)) = path s"
  by (simp add: failed_def Let_def)

lemma path_succeeded: "path (snd (succeeded r wt s)) = path s"
  by (simp add: succeeded_def Let_def)

section \<open>C2: the de-duplication rule of recorded failures\<close>

text \<open>
  C2 (as stated): the joined path \<open>p\<close> is added unless some recorded failure is a
  string-prefix of \<open>p\<close>, so that a recorded parent suppresses later deeper paths.
  The code tests the other direction: with \<open>''a''\<close> recorded, a failure at path
  \<open>a.b\<close> is still added, although \<open>''a''\<close> is a prefix of \<open>''a.b''\<close>; and with
  \<open>''a.b''\<close> recorded, a failure at \<open>a\<close> is dropped although no recorded failure is
  a prefix of \<open>''a''\<close>.
\<close>

theorem C2_parent_does_not_suppress_child:
  "prefix ''a'' (join ''.'' [''a'', ''b''])
   \<and> failures (snd (failed \<lparr>path = [''a'', ''b''], defs = [], failures = [''a'']\<rparr>))
       = [''a'', ''a.b'']
   \<and> failures (snd (succeeded False (Some 0)
         \<lparr>path = [''a'', ''b''], defs = [], failures = [''a''], quality = (0::rat)\<rparr>))
       = [''a'', ''a.b'']
   \<and> \<not> list_ex (\<lambda>f. prefix f (join ''.'' [''a''])) [''a.b'']
   \<and> failures (snd (failed \<lparr>path = [''a''], defs = [], failures = [''a.b'']\<rparr>))
       = [''a.b'']"
  by (simp add: failed_def succeeded_def Let_def)

text \<open>
  C2 (amended): the joined path \<open>p\<close> is added to the failures unless \<open>p\<close> is a
  string-prefix of some failure already recorded (some recorded failure starts with
  \<open>p\<close>); it is then appended at the end.  This holds for \<open>failed\<close> and for
  \<open>succeeded\<close> with a false result.  A deeper failure, once recorded, thus suppresses a
  later failure at any of its ancestors.
\<close>

theorem C2_failures_dedup:
  "failures (snd (failed s)) =
     (if list_ex (\<lambda>f. prefix (join ''.'' (path s)) f) (failures s)
      then failures s else failures s @ [join ''.'' (path s)])
   \<and> failures (snd (succeeded False wt q)) =
     (if list_ex (\<lambda>f. prefix (join ''.'' (path q)) f) (failures q)
      then failures q else failures q @ [join ''.'' (path q)])
   \<and> failures (snd (succeeded True wt q)) = failures q"
  by (simp add: failed_def succeeded_def Let_def)

theorem C2_failures_dedup_witness:
  "failures (snd (failed \<lparr>path = [''a''], defs = [], failures = [''a.b'']\<rparr>)) = [''a.b'']
   \<and> failures (snd (succeeded False (Some 1)
        \<lparr>path = [''a'', ''c''], defs = [], failures = [''a.b''], quality = (0::rat)\<rparr>))
      = [''a.b'', ''a.c'']"
  using C2_failures_dedup [of "\<lparr>path = [''a''], defs = [], failures = [''a.b'']\<rparr>" "Some 1"
      "\<lparr>path = [''a'', ''c''], defs = [], failures = [''a.b''], quality = (0::rat)\<rparr>"]
  by simp

section \<open>The hydrated methods, unfolded\<close>

lemma matches_check: "matches (check chk nm wt) = bindStatus chk nm wt Matches"
  and cast_check: "cast (check chk nm wt) = bindStatus chk nm wt Cast"
  and validate_check: "validate (check chk nm wt) = bindStatus chk nm wt Validate"
  and name_check: "name (check chk nm wt) = nm"
  by (simp_all add: check_def indirect_def methods.defs checker.defs)

lemma method_of_check: "method_of m (check chk nm wt) = bindStatus chk nm wt m"
  by (cases m) (simp_all add: matches_check cast_check validate_check)

lemma push_entered:
  "push nm keys (case sopt of None \<Rightarrow> new_QStatus | Some s \<Rightarrow> s) = (pushed nm keys, entered nm keys sopt)"
  by (simp add: push_def entered_def pushed_def Let_def)

lemma bindStatus_return:
  assumes "method_of m chk v (entered nm keys sopt) w = (Inr r, s2, w2)"
  shows "bindStatus chk nm wt m v sopt keys w =
    (Inr r, pop (pushed nm keys) (snd (succeeded (m \<noteq> Matches \<or> js_truthy r) wt s2)), w2)"
  using assms by (simp add: bindStatus_def push_entered split: prod.splits)

lemma bindStatus_throw_message:
  assumes "method_of m chk v (entered nm keys sopt) w = (Inl e, s2, w2)"
    and "message e = Some msg" and "msg \<noteq> []"
  shows "bindStatus chk nm wt m v sopt keys w =
    (Inl (e\<lparr>message := Some (msg @ '' at '' @ or_any (join ''.'' (path s2)))\<rparr>),
     pop (pushed nm keys) (snd (succeeded False wt s2)), w2)"
  using assms by (simp add: bindStatus_def push_entered succeeded_def Let_def split: prod.splits)

lemma bindStatus_throw_plain:
  assumes "method_of m chk v (entered nm keys sopt) w = (Inl e, s2, w2)"
    and "\<not> has_message e"
  shows "bindStatus chk nm wt m v sopt keys w = (Inl e, pop (pushed nm keys) s2, w2)"
  using assms by (simp add: bindStatus_def push_entered has_message_def split: prod.splits option.splits)

lemma and_c_checker: "and_c T P a [DChecker b] = check (and_raw a b) None (Some 0)"
  by (simp add: and_c_def)

section \<open>C1: \<open>matches\<close> of a conjunction\<close>

text \<open>
  C1: for checkers \<open>a\<close> and \<open>b\<close> and a value \<open>v\<close>, \<open>a.and(b).matches(v)\<close> returns a
  truthy value if and only if \<open>a.matches(v)\<close> does and \<open>b.matches\<close>, applied to the
  value that \<open>a.cast(v)\<close> returns, does.  When \<open>a.matches(v)\<close> returns a falsy value
  \<open>r\<close>, the conjunction returns \<open>r\<close> with the world as \<open>a.matches\<close> left it and
  the status as \<open>a.matches\<close> left it but for the conjunction's own record and pop:
  nothing of \<open>b\<close> has run.  The calls are taken in the status and world in which the
  conjunction makes them.
\<close>

theorem C1_and_matches:
  "(returns_true (matches (and_c T P a [DChecker b]) v sopt keys w) \<longleftrightarrow>
       returns_true (matches a v (Some (entered None keys sopt)) [] w) \<and>
       (let ra = matches a v (Some (entered None keys sopt)) [] w;
            rc = cast a v (Some (status_of ra)) [] (world_of ra)
        in case result_of rc of
             Inl e \<Rightarrow> False
           | Inr c \<Rightarrow> returns_true (matches b c (Some (status_of rc)) [name a] (world_of rc))))
     \<and> (\<forall>r. result_of (matches a v (Some (entered None keys sopt)) [] w) = Inr r \<and> \<not> js_truthy r \<longrightarrow>
          matches (and_c T P a [DChecker b]) v sopt keys w =
            (Inr r,
             pop (pushed None keys) (snd (succeeded False (Some 0)
               (status_of (matches a v (Some (entered None keys sopt)) [] w)))),
             world_of (matches a v (Some (entered None keys sopt)) [] w)))"
proof (intro conjI allI impI)
  show "returns_true (matches (and_c T P a [DChecker b]) v sopt keys w) \<longleftrightarrow>
       returns_true (matches a v (Some (entered None keys sopt)) [] w) \<and>
       (let ra = matches a v (Some (entered None keys sopt)) [] w;
            rc = cast a v (Some (status_of ra)) [] (world_of ra)
        in case result_of rc of
             Inl e \<Rightarrow> False
           | Inr c \<Rightarrow> returns_true (matches b c (Some (status_of rc)) [name a] (world_of rc)))"
    by (simp add: and_c_checker matches_check bindStatus_def and_raw_def Let_def returns_true_def
        result_of_def status_of_def world_of_def push_entered
        split: prod.splits sum.splits option.splits)
next
  fix r
  assume h: "result_of (matches a v (Some (entered None keys sopt)) [] w) = Inr r \<and> \<not> js_truthy r"
  then obtain sa wa where ra: "matches a v (Some (entered None keys sopt)) [] w = (Inr r, sa, wa)"
    by (cases "matches a v (Some (entered None keys sopt)) [] w") (simp add: result_of_def)
  have "method_of Matches (and_raw a b) v (entered None keys sopt) w = (Inr r, sa, wa)"
    using h by (simp add: and_raw_def ra)
  then show "matches (and_c T P a [DChecker b]) v sopt keys w =
            (Inr r,
             pop (pushed None keys) (snd (succeeded False (Some 0)
               (status_of (matches a v (Some (entered None keys sopt)) [] w)))),
             world_of (matches a v (Some (entered None keys sopt)) [] w))"
    using h by (simp add: and_c_checker matches_check bindStatus_return ra status_of_def world_of_def)
qed


theorem C1_and_matches_witness:
  "\<not> returns_true (matches (and_c example_checks example_platform statics_object [DChecker spy]) JNull None [] 0)
   \<and> world_of (matches (and_c example_checks example_platform statics_object [DChecker spy]) JNull None [] 0) = 0
   \<and> returns_true (matches (and_c example_checks example_platform statics_object [DChecker spy]) (JObj []) None [] 0)
   \<and> world_of (matches (and_c example_checks example_platform statics_object [DChecker spy]) (JObj []) None [] 0) = 1"
  using C1_and_matches [of example_checks example_platform statics_object spy JNull None "[]" 0]
    C1_and_matches [of example_checks example_platform statics_object spy "JObj []" None "[]" 0]
  by (simp add: statics_object_def staticCheck_def static_raw_def spy_def matches_check cast_check name_check
      bindStatus_def entered_def pushed_def push_def pop_def succeeded_def new_QStatus_def Let_def
      returns_true_def result_of_def status_of_def world_of_def and_c_checker and_raw_def)

section \<open>The hydrated methods of \<open>src/index.js\<close>, unfolded\<close>

lemma matches_check0: "matches (check0 chk nm) = bindStatus0 chk nm Matches"
  and cast_check0: "cast (check0 chk nm) = bindStatus0 chk nm Cast"
  and validate_check0: "validate (check0 chk nm) = bindStatus0 chk nm Validate"
  and name_check0: "name (check0 chk nm) = nm"
  by (simp_all add: check0_def indirect_def methods.defs checker.defs)

lemma method_of_check0: "method_of m (check0 chk nm) = bindStatus0 chk nm m"
  by (cases m) (simp_all add: matches_check0 cast_check0 validate_check0)

lemma push_entered0:
  "push nm keys (case sopt of None \<Rightarrow> new_Status | Some s \<Rightarrow> s) = (pushed nm keys, entered0 nm keys sopt)"
  by (simp add: push_def entered0_def pushed_def Let_def)

section \<open>The path stack across a call\<close>

lemma path_entered:
  "path (entered nm keys sopt) = path (case sopt of None \<Rightarrow> new_QStatus | Some s \<Rightarrow> s) @ compact (keys @ [nm])"
  by (simp add: entered_def path_push)

lemma path_entered0:
  "path (entered0 nm keys sopt) = path (case sopt of None \<Rightarrow> new_Status | Some s \<Rightarrow> s) @ compact (keys @ [nm])"
  by (simp add: entered0_def path_push)

lemma has_messageE:
  assumes "has_message e"
  obtains msg where "message e = Some msg" and "msg \<noteq> []"
  using assms by (auto simp: has_message_def split: option.splits)

lemma bindStatus0_return:
  assumes "method_of m chk v (entered0 nm keys sopt) w = (Inr r, s2, w2)"
  shows "bindStatus0 chk nm m v sopt keys w =
    (if m \<noteq> Matches \<or> js_truthy r then (Inr r, pop (pushed nm keys) s2, w2)
     else (Inr (JBool False), pop (pushed nm keys) (snd (failed s2)), w2))"
  using assms
  by (simp add: bindStatus0_def push_entered0 failed_def or_any_def Let_def split: prod.splits)

lemma bindStatus0_throw_message:
  assumes "method_of m chk v (entered0 nm keys sopt) w = (Inl e, s2, w2)"
    and "message e = Some msg" and "msg \<noteq> []"
  shows "bindStatus0 chk nm m v sopt keys w =
    (Inl (e\<lparr>message := Some (msg @ '' at '' @ or_any (join ''.'' (path s2)))\<rparr>),
     pop (pushed nm keys) (snd (failed s2)), w2)"
  using assms by (simp add: bindStatus0_def push_entered0 failed_def Let_def split: prod.splits)

lemma bindStatus0_throw_plain:
  assumes "method_of m chk v (entered0 nm keys sopt) w = (Inl e, s2, w2)"
    and "\<not> has_message e"
  shows "bindStatus0 chk nm m v sopt keys w = (Inl e, pop (pushed nm keys) s2, w2)"
  using assms
  by (simp add: bindStatus0_def push_entered0 has_message_def split: prod.splits option.splits)

lemma path_bindStatus:
  "path (status_of (bindStatus chk nm wt m v sopt keys w)) =
     pop_times (pushed nm keys) (path (status_of (method_of m chk v (entered nm keys sopt) w)))"
proof -
  obtain r s2 w2 where raw: "method_of m chk v (entered nm keys sopt) w = (r, s2, w2)"
    by (cases "method_of m chk v (entered nm keys sopt) w")
  show ?thesis
  proof (cases r)
    case (Inr x)
    then show ?thesis
      using raw by (simp add: bindStatus_return status_of_def path_pop path_succeeded)
  next
    case (Inl e)
    show ?thesis
    proof (cases "has_message e")
      case True
      then obtain msg where "message e = Some msg" and "msg \<noteq> []"
        by (rule has_messageE)
      then show ?thesis
        using raw Inl by (simp add: bindStatus_throw_message status_of_def path_pop path_succeeded)
    next
      case False
      then show ?thesis
        using raw Inl by (simp add: bindStatus_throw_plain status_of_def path_pop)
    qed
  qed
qed

lemma path_bindStatus0:
  "path (status_of (bindStatus0 chk nm m v sopt keys w)) =
     pop_times (pushed nm keys) (path (status_of (method_of m chk v (entered0 nm keys sopt) w)))"
proof -
  obtain r s2 w2 where raw: "method_of m chk v (entered0 nm keys sopt) w = (r, s2, w2)"
    by (cases "method_of m chk v (entered0 nm keys sopt) w")
  show ?thesis
  proof (cases r)
    case (Inr x)
    then show ?thesis
      using raw by (simp add: bindStatus0_return status_of_def path_pop path_failed)
  next
    case (Inl e)
    show ?thesis
    proof (cases "has_message e")
      case True
      then obtain msg where "message e = Some msg" and "msg \<noteq> []"
        by (rule has_messageE)
      then show ?thesis
        using raw Inl by (simp add: bindStatus0_throw_message status_of_def path_pop path_failed)
    next
      case False
      then show ?thesis
        using raw Inl by (simp add: bindStatus0_throw_plain status_of_def path_pop)
    qed
  qed
qed

lemma length_pop_times: "length (pop_times n xs) = length xs - n"
  by (simp add: pop_times_take)

lemma balanced_bindStatus:
  assumes "\<And>s. length (path (status_of (method_of m chk v s w))) = length (path s)"
  shows "length (path (status_of (bindStatus chk nm wt m v sopt keys w))) =
     length (path (case sopt of None \<Rightarrow> new_QStatus | Some s \<Rightarrow> s))"
  by (simp add: path_bindStatus length_pop_times assms path_entered pushed_def)

lemma balanced_bindStatus0:
  assumes "\<And>s. length (path (status_of (method_of m chk v s w))) = length (path s)"
  shows "length (path (status_of (bindStatus0 chk nm m v sopt keys w))) =
     length (path (case sopt of None \<Rightarrow> new_Status | Some s \<Rightarrow> s))"
  by (simp add: path_bindStatus0 length_pop_times assms path_entered0 pushed_def)

lemma balanced_and_raw:
  assumes a: "\<And>m v s keys w. length (path (status_of (method_of m a v (Some s) keys w))) = length (path s)"
    and b: "\<And>m v s keys w. length (path (status_of (method_of m b v (Some s) keys w))) = length (path s)"
  shows "length (path (status_of (method_of m (and_raw a b) v s w))) = length (path s)"
proof (cases m)
  case Matches
  obtain ra sa wa where ra: "matches a v (Some s) [] w = (ra, sa, wa)"
    by (cases "matches a v (Some s) [] w")
  have la: "length (path sa) = length (path s)"
    using a [of Matches v s "[]" w] by (simp add: ra status_of_def)
  obtain rc sc wc where rc: "cast a v (Some sa) [] wa = (rc, sc, wc)"
    by (cases "cast a v (Some sa) [] wa")
  have lc: "length (path sc) = length (path s)"
    using a [of Cast v sa "[]" wa] la by (simp add: rc status_of_def)
  have lb: "\<And>c. length (path (status_of (matches b c (Some sc) [name a] wc))) = length (path s)"
    using b [of Matches _ sc "[name a]" wc] lc by simp
  show ?thesis
    using Matches la lc lb
    by (simp add: and_raw_def ra rc status_of_def split: sum.splits prod.splits)
next
  case Cast
  obtain rc sc wc where rc: "cast a v (Some s) [] w = (rc, sc, wc)"
    by (cases "cast a v (Some s) [] w")
  have lc: "length (path sc) = length (path s)"
    using a [of Cast v s "[]" w] by (simp add: rc status_of_def)
  have lb: "\<And>c. length (path (status_of (cast b c (Some sc) [name a] wc))) = length (path s)"
    using b [of Cast _ sc "[name a]" wc] lc by simp
  show ?thesis
    using Cast lc lb
    by (simp add: and_raw_def rc status_of_def split: sum.splits prod.splits)
next
  case Validate
  obtain rc sc wc where rc: "validate a v (Some s) [] w = (rc, sc, wc)"
    by (cases "validate a v (Some s) [] w")
  have lc: "length (path sc) = length (path s)"
    using a [of Validate v s "[]" w] by (simp add: rc status_of_def)
  have lb: "\<And>c. length (path (status_of (validate b c (Some sc) [name a] wc))) = length (path s)"
    using b [of Validate _ sc "[name a]" wc] lc by simp
  show ?thesis
    using Validate lc lb
    by (simp add: and_raw_def rc status_of_def split: sum.splits prod.splits)
qed

lemma composed_balanced:
  "composed c \<Longrightarrow>
     length (path (status_of (method_of m c v sopt keys w))) =
     length (path (case sopt of None \<Rightarrow> new_QStatus | Some s \<Rightarrow> s))"
proof (induction c arbitrary: m v sopt keys w rule: composed.induct)
  case (hydrated raw nm wt)
  show ?case
    by (simp add: method_of_check balanced_bindStatus hydrated)
next
  case (named c nm)
  have "method_of m (c\<lparr>name := nm\<rparr>) = method_of m c"
    by (cases m) simp_all
  then show ?case
    by (simp add: named.IH)
next
  case (conjunction left T P what)
  have "\<And>m v s w. length (path (status_of (method_of m (and_raw left (as T P what)) v s w))) = length (path s)"
    by (rule balanced_and_raw) (simp_all add: conjunction.IH)
  then show ?case
    by (simp add: and_c_def method_of_check balanced_bindStatus)
qed

section \<open>C3: the path stack is balanced\<close>

text \<open>
  C3: for every checker, however composed, and every call of its hydrated \<open>matches\<close>,
  \<open>cast\<close> (\<open>coerce\<close>) or \<open>validate\<close> on any input, whether the call returns or
  throws, the path stack of the status is as long after the call as before it.  The
  checkers are those of \<open>composed\<close>: raw methods that hand the stack back at the length
  they found it (raw methods know nothing of the path), hydrated, the checker \<open>as\<close>
  among them, and conjunctions of such checkers; for \<open>src/index.js\<close>, which has no conjunction among the sources, a
  hydrated raw object.  A call without a status works on a fresh one.
\<close>

theorem C3_path_balance:
  "(composed c \<longrightarrow>
      length (path (status_of (method_of m c v sopt keys w))) =
      length (path (case sopt of None \<Rightarrow> new_QStatus | Some s \<Rightarrow> s)))
   \<and> ((\<forall>m v s w. length (path (status_of (method_of m raw0 v s w))) = length (path s)) \<longrightarrow>
      length (path (status_of (method_of m (check0 raw0 nm) v sopt0 keys w0))) =
      length (path (case sopt0 of None \<Rightarrow> new_Status | Some s \<Rightarrow> s)))"
  by (simp add: composed_balanced method_of_check0 balanced_bindStatus0)

theorem C3_path_balance_witness:
  "length (path (status_of (method_of Cast
      (and_c example_checks example_platform (check thrower_raw (Some ''t'') None) [DChecker spy])
      JNull (Some \<lparr>path = [''root''], defs = [], failures = [], quality = (0::rat)\<rparr>) [Some ''k''] 0))) = 1
   \<and> length (path (status_of (method_of Cast (check0 thrower_raw (Some ''t''))
      JNull (Some \<lparr>path = [''root''], defs = [], failures = []\<rparr>) [Some ''k''] (0::nat)))) = 1"
proof -
  have t: "status_of (method_of m thrower_raw v s w) = s" for m v and s :: 's and w :: nat
    by (cases m) (simp_all add: thrower_raw_def status_of_def)
  have "composed (check thrower_raw (Some ''t'') None :: (rat qstatus, nat) hmethod checker)"
    by (rule composed.hydrated) (simp add: t)
  moreover have "composed (as example_checks example_platform [DChecker spy])"
    unfolding spy_def
  proof (simp, rule composed.hydrated)
    fix m v s w
    show "length (path (status_of (method_of m
            \<lparr>matches = \<lambda>value status n. (Inr (JBool True), status, Suc n),
               cast = \<lambda>value status n. (Inr value, status, Suc n),
               validate = \<lambda>value status n. (Inr value, status, Suc n)\<rparr> v s w))) = length (path s)"
      by (cases m) (simp_all add: status_of_def)
  qed
  ultimately have c: "composed
      (and_c example_checks example_platform (check thrower_raw (Some ''t'') None) [DChecker spy])"
    by (rule composed.conjunction)
  have r: "\<forall>m v s w. length (path (status_of (method_of m (thrower_raw :: (status, nat) raw_method methods) v s w))) = length (path s)"
    by (simp add: t)
  show ?thesis
    using c r C3_path_balance [of
        "and_c example_checks example_platform (check thrower_raw (Some ''t'') None) [DChecker spy]"
        Cast JNull "Some \<lparr>path = [''root''], defs = [], failures = [], quality = (0::rat)\<rparr>" "[Some ''k'']" 0
        thrower_raw "Some ''t''" "Some \<lparr>path = [''root''], defs = [], failures = []\<rparr>" "0::nat"]
    by simp
qed

section \<open>C4: a thrown error is annotated with the path\<close>

text \<open>
  C4: when the raw method throws an error \<open>e\<close> that carries a message (a non-empty
  \<open>message\<close>), the hydrated method throws the same error object, its message extended
  by \<open>' at '\<close> and the joined path of the status at that moment, or \<open>'any'\<close> when
  that path is empty; nothing else of the object changes.  An error without a message
  (none, or the empty one that \<open>new Error()\<close> has) is thrown on as it is.  Both
  variants of the hydrator do so.
\<close>

theorem C4_error_annotation:
  "(method_of m chk v (entered nm keys sopt) w = (Inl e, s2, w2) \<longrightarrow>
      result_of (method_of m (check chk nm wt) v sopt keys w) =
        (if has_message e
         then Inl (e\<lparr>message := map_option (\<lambda>msg. msg @ '' at '' @ or_any (join ''.'' (path s2))) (message e)\<rparr>)
         else Inl e))
   \<and> (method_of m chk0 v (entered0 nm keys sopt0) w = (Inl e, s0, w2) \<longrightarrow>
      result_of (method_of m (check0 chk0 nm) v sopt0 keys w) =
        (if has_message e
         then Inl (e\<lparr>message := map_option (\<lambda>msg. msg @ '' at '' @ or_any (join ''.'' (path s0))) (message e)\<rparr>)
         else Inl e))"
proof (cases "has_message e")
  case True
  then obtain msg where "message e = Some msg" and "msg \<noteq> []"
    by (rule has_messageE)
  then show ?thesis
    using True
    by (simp add: method_of_check method_of_check0 bindStatus_throw_message
        bindStatus0_throw_message result_of_def)
next
  case False
  then show ?thesis
    by (simp add: method_of_check method_of_check0 bindStatus_throw_plain
        bindStatus0_throw_plain result_of_def)
qed

theorem C4_error_annotation_witness:
  "result_of (method_of Cast (check thrower_raw (Some ''t'') None) JNull
      (Some \<lparr>path = [''root''], defs = [], failures = [], quality = (0::rat)\<rparr>) [Some ''k''] (0::nat))
     = Inl \<lparr>err_id = 7, err_kind = ''TypeError'', message = Some ''boom at root.k.t''\<rparr>
   \<and> result_of (method_of Cast (check0 thrower_raw (Some ''t'')) JNull None [Some ''k''] (0::nat))
     = Inl \<lparr>err_id = 7, err_kind = ''TypeError'', message = Some ''boom at k.t''\<rparr>"
proof -
  have v2: "method_of Cast thrower_raw JNull
        (entered (Some ''t'') [Some ''k'']
          (Some \<lparr>path = [''root''], defs = [], failures = [], quality = (0::rat)\<rparr>)) (0::nat)
      = (Inl boom, \<lparr>path = [''root'', ''k'', ''t''], defs = [], failures = [], quality = 0\<rparr>, 0)"
    by (simp add: thrower_raw_def entered_def push_def)
  have v1: "method_of Cast thrower_raw JNull (entered0 (Some ''t'') [Some ''k''] None) (0::nat)
      = (Inl boom, \<lparr>path = [''k'', ''t''], defs = [], failures = []\<rparr>, 0)"
    by (simp add: thrower_raw_def entered0_def push_def new_Status_def)
  have h: "has_message boom" and m: "message boom = Some ''boom''"
    by (simp_all add: boom_def has_message_def)
  show ?thesis
    using C4_error_annotation [where m = Cast and chk = thrower_raw and v = JNull and nm = "Some ''t''"
        and keys = "[Some ''k'']"
        and sopt = "Some \<lparr>path = [''root''], defs = [], failures = [], quality = (0::rat)\<rparr>"
        and w = "0::nat" and e = boom
        and ?s2.0 = "\<lparr>path = [''root'', ''k'', ''t''], defs = [], failures = [], quality = 0\<rparr>"
        and ?w2.0 = 0 and wt = None
        and ?chk0.0 = thrower_raw and ?sopt0.0 = None
        and ?s0.0 = "\<lparr>path = [''k'', ''t''], defs = [], failures = []\<rparr>"]
    unfolding v2 v1
    by (simp add: h m or_any_def) (simp add: boom_def)
qed

section \<open>The quality across a call\<close>

lemma quality_pop: "quality (pop n s) = quality s"
  by (simp add: pop_def)

lemma quality_succeeded:
  "quality (snd (succeeded ok wt s)) =
     (if ok then quality s + eff_weight wt else quality s - eff_weight wt)"
  by (simp add: succeeded_def Let_def)

lemma quality_entered:
  "quality (entered nm keys sopt) = quality (case sopt of None \<Rightarrow> new_QStatus | Some s \<Rightarrow> s)"
  by (simp add: entered_def push_def Let_def)

lemma accumulate_append: "accumulate q (xs @ ys) = accumulate (accumulate q xs) ys"
  by (induction q xs rule: accumulate.induct) simp_all

text \<open>Where the arithmetic is exact, the accumulated quality is the signed sum.\<close>

lemma accumulate_exact:
  fixes q :: "'a::ab_group_add"
  shows "accumulate q evs = q + sum_list (map (\<lambda>(ok, x). if ok then x else - x) evs)"
  by (induction q evs rule: accumulate.induct) (simp_all add: algebra_simps)

lemma quality_bindStatus:
  "quality (status_of (bindStatus chk nm wt m v sopt keys w)) =
     accumulate (quality (status_of (method_of m chk v (entered nm keys sopt) w)))
       (own_event m wt (result_of (method_of m chk v (entered nm keys sopt) w)))"
proof -
  obtain r s2 w2 where raw: "method_of m chk v (entered nm keys sopt) w = (r, s2, w2)"
    by (cases "method_of m chk v (entered nm keys sopt) w")
  show ?thesis
  proof (cases r)
    case (Inr x)
    then show ?thesis
      using raw
      by (simp add: bindStatus_return status_of_def result_of_def quality_pop quality_succeeded
          own_event_def recorded_def)
  next
    case (Inl e)
    show ?thesis
    proof (cases "has_message e")
      case True
      then obtain msg where "message e = Some msg" and "msg \<noteq> []"
        by (rule has_messageE)
      then show ?thesis
        using raw Inl True
        by (simp add: bindStatus_throw_message status_of_def result_of_def quality_pop
            quality_succeeded own_event_def recorded_def)
    next
      case False
      then show ?thesis
        using raw Inl
        by (simp add: bindStatus_throw_plain status_of_def result_of_def quality_pop
            own_event_def recorded_def)
    qed
  qed
qed

text \<open>
  An entry of weight 0 leaves the quality as it is wherever adding and subtracting 0
  does, as in the rationals and, but for NaN and the sign of zero, in the doubles.
\<close>

lemma own_event_zero_general:
  assumes "\<And>q::'q::{zero,one,plus,minus,inverse}. q + 0 = q" and "\<And>q::'q. q - 0 = q"
  shows "accumulate (q::'q) (own_event m (Some 0) res) = q"
  using assms by (simp add: own_event_def eff_weight_def split: option.splits)

lemma own_event_zero: "accumulate (q::rat) (own_event m (Some 0) res) = q"
  by (rule own_event_zero_general) simp_all

lemma and_weightless_general:
  assumes "\<And>q::'q::{zero,one,plus,minus,inverse}. q + 0 = q" and "\<And>q::'q. q - 0 = q"
  shows "quality (status_of (method_of m (and_c T P x what) v sopt keys w)) =
       (quality (status_of (method_of m (and_raw x (as T P what)) v (entered None keys sopt) w)) :: 'q)"
  by (simp add: and_c_def method_of_check quality_bindStatus own_event_zero_general [OF assms])

section \<open>C7: a conjunction has no weight of its own\<close>

text \<open>
  C7: the checker that \<open>x.and(y)\<close> makes is hydrated without a name and with weight 0.
  For each of its methods, the quality of the status after the call is the quality that
  the raw conjunction, that is the calls of \<open>x\<close> and \<open>y\<close>, left: the conjunction's own
  record of success or failure, on return or on a throw, does not move the quality.
  (Stated for the rationals; \<open>and_weightless_general\<close> has it for every number type in
  which adding and subtracting 0 changes nothing.)
\<close>

theorem C7_and_weightless:
  fixes x :: "(rat qstatus, 'w) hmethod checker"
  shows "name (and_c T P x what) = None
   \<and> and_c T P x what = check (and_raw x (as T P what)) None (Some 0)
   \<and> quality (status_of (method_of m (and_c T P x what) v sopt keys w)) =
       quality (status_of (method_of m (and_raw x (as T P what)) v (entered None keys sopt) w))"
  by (simp add: and_c_def name_check method_of_check quality_bindStatus own_event_zero)

section \<open>C10: an undefined weight counts as 1\<close>

text \<open>
  C10 (as stated): a checker hydrated without a weight contributes +1 to the quality on
  each successful invocation and -1 on each failing one.  An invocation whose raw method
  throws an error without a message fails, and the error is thrown on, but
  \<open>succeeded\<close> is not reached: the quality stays at 0, not at -1.
\<close>

theorem C10_silent_throw:
  "result_of (method_of Cast (check silent_raw (Some ''s'') None) JNull None [] ()) = Inl silent
   \<and> quality (status_of (method_of Cast (check silent_raw (Some ''s'') None) JNull None [] ()))
       = (0::rat)
   \<and> (0::rat) \<noteq> 0 - 1"
  by (simp add: method_of_check bindStatus_def silent_raw_def silent_def push_def pop_def
      new_QStatus_def result_of_def status_of_def Let_def)

text \<open>
  C10 (amended): in the scoring variant, a checker hydrated without a weight applies
  \<open>quality += 1\<close> to the quality its raw method left on each invocation that is
  recorded as a success (a \<open>cast\<close> or \<open>validate\<close> that returns, a \<open>matches\<close> that
  returns a truthy value) and \<open>quality -= 1\<close> on each that is recorded as a failure (a
  \<open>matches\<close> that returns a falsy value, a throw of an error with a message):
  \<open>succeeded\<close> puts 1 for the undefined weight.  An invocation whose raw method throws
  an error without a message leaves the quality as it is.
\<close>

theorem C10_default_weight:
  "quality (status_of (method_of m (check chk nm None) v sopt keys w)) =
     (case recorded m (result_of (method_of m chk v (entered nm keys sopt) w)) of
        None \<Rightarrow> quality (status_of (method_of m chk v (entered nm keys sopt) w))
      | Some ok \<Rightarrow>
          if ok then quality (status_of (method_of m chk v (entered nm keys sopt) w)) + 1
          else quality (status_of (method_of m chk v (entered nm keys sopt) w)) - 1)"
  by (simp add: method_of_check quality_bindStatus own_event_def eff_weight_def split: option.splits)

lemma quality_and_raw:
  assumes a: "\<And>m v sopt keys w. quality (status_of (method_of m (build T P a) v sopt keys w)) =
       accumulate (quality (case sopt of None \<Rightarrow> new_QStatus | Some s \<Rightarrow> s))
         (events T P m a v sopt keys w)"
    and b: "\<And>m v sopt keys w. quality (status_of (method_of m (build T P b) v sopt keys w)) =
       accumulate (quality (case sopt of None \<Rightarrow> new_QStatus | Some s \<Rightarrow> s))
         (events T P m b v sopt keys w)"
  shows "accumulate
       (quality (status_of (method_of m (and_raw (build T P a) (build T P b)) v (entered None keys sopt) w)))
       (own_event m (Some 0)
          (result_of (method_of m (and_raw (build T P a) (build T P b)) v (entered None keys sopt) w)))
     = accumulate (quality (entered None keys sopt)) (events T P m (Conj a b) v sopt keys w)"
proof (cases m)
  case Matches
  let ?s = "entered None keys sopt"
  obtain ra sa wa where ra: "matches (build T P a) v (Some ?s) [] w = (ra, sa, wa)"
    by (cases "matches (build T P a) v (Some ?s) [] w")
  have qa: "quality sa = accumulate (quality ?s) (events T P Matches a v (Some ?s) [] w)"
    using a [of Matches v "Some ?s" "[]" w] by (simp add: ra status_of_def)
  obtain rc sc wc where rc: "cast (build T P a) v (Some sa) [] wa = (rc, sc, wc)"
    by (cases "cast (build T P a) v (Some sa) [] wa")
  have qc: "quality sc = accumulate (quality sa) (events T P Cast a v (Some sa) [] wa)"
    using a [of Cast v "Some sa" "[]" wa] by (simp add: rc status_of_def)
  have qb: "quality (status_of (matches (build T P b) c (Some sc) [name (build T P a)] wc)) =
      accumulate (quality sc) (events T P Matches b c (Some sc) [name (build T P a)] wc)" for c
    using b [of Matches c "Some sc" "[name (build T P a)]" wc] by simp
  show ?thesis
    using Matches qa qc qb
    by (simp add: and_raw_def ra rc status_of_def result_of_def world_of_def returns_true_def
        accumulate_append Let_def split: sum.splits)
next
  case Cast
  let ?s = "entered None keys sopt"
  obtain rc sc wc where rc: "cast (build T P a) v (Some ?s) [] w = (rc, sc, wc)"
    by (cases "cast (build T P a) v (Some ?s) [] w")
  have qc: "quality sc = accumulate (quality ?s) (events T P Cast a v (Some ?s) [] w)"
    using a [of Cast v "Some ?s" "[]" w] by (simp add: rc status_of_def)
  have qb: "quality (status_of (cast (build T P b) c (Some sc) [name (build T P a)] wc)) =
      accumulate (quality sc) (events T P Cast b c (Some sc) [name (build T P a)] wc)" for c
    using b [of Cast c "Some sc" "[name (build T P a)]" wc] by simp
  show ?thesis
    using Cast qc qb
    by (simp add: and_raw_def rc status_of_def result_of_def world_of_def
        accumulate_append Let_def split: sum.splits)
next
  case Validate
  let ?s = "entered None keys sopt"
  obtain rc sc wc where rc: "validate (build T P a) v (Some ?s) [] w = (rc, sc, wc)"
    by (cases "validate (build T P a) v (Some ?s) [] w")
  have qc: "quality sc = accumulate (quality ?s) (events T P Validate a v (Some ?s) [] w)"
    using a [of Validate v "Some ?s" "[]" w] by (simp add: rc status_of_def)
  have qb: "quality (status_of (validate (build T P b) c (Some sc) [name (build T P a)] wc)) =
      accumulate (quality sc) (events T P Validate b c (Some sc) [name (build T P a)] wc)" for c
    using b [of Validate c "Some sc" "[name (build T P a)]" wc] by simp
  show ?thesis
    using Validate qc qb
    by (simp add: and_raw_def rc status_of_def result_of_def world_of_def
        accumulate_append Let_def split: sum.splits)
qed

section \<open>C6: the quality along the walk\<close>

text \<open>
  C6 (as stated): every checker invocation along the walk adds its weight to the quality
  when it succeeds and subtracts it when it fails.  An invocation whose raw method throws
  an error without a message fails, and the error is thrown on, but \<open>succeeded\<close> is
  not reached: with weight 3 the quality stays at 0, not at -3.
\<close>

theorem C6_silent_throw:
  "result_of (method_of Matches (check silent_raw (Some ''s'') (Some 3)) JNull None [] ())
     = Inl silent
   \<and> quality (status_of (method_of Matches (check silent_raw (Some ''s'') (Some 3)) JNull None [] ()))
       = (0::rat)
   \<and> events example_checks example_platform Matches (Leaf silent_raw (Some ''s'') (Some (3::rat)))
        JNull None [] () = []
   \<and> (0::rat) \<noteq> 0 - 3"
  by (simp add: method_of_check bindStatus_def silent_raw_def silent_def push_def pop_def
      new_QStatus_def result_of_def status_of_def Let_def own_event_def recorded_def
      has_message_def entered_def)

text \<open>
  C6 (amended): in the scoring variant, every invocation along the walk, at the root or
  below it, that returns or that throws an error with a message applies
  \<open>quality += weight\<close> when it succeeds (a \<open>cast\<close> or \<open>validate\<close> that returns, a
  \<open>matches\<close> that returns a truthy value) and \<open>quality -= weight\<close> when it fails (a
  \<open>matches\<close> that returns a falsy value, a throw of an error with a message); the
  weight is the one given to \<open>as.check\<close>, 1 when none is given.  An invocation whose
  raw method throws an error without a message records nothing.  So the quality after a
  call is the quality before it with these additions and subtractions applied in the
  order in which the invocations finish, in the arithmetic of the numbers (of which
  nothing is assumed; where it is exact, this is the signed sum, \<open>accumulate_exact\<close>).
  The raw methods at the leaves leave the quality alone.
\<close>

theorem C6_quality_accumulates:
  "quality_kept t \<Longrightarrow>
     quality (status_of (method_of m (build T P t) v sopt keys w)) =
       accumulate (quality (case sopt of None \<Rightarrow> new_QStatus | Some s \<Rightarrow> s))
         (events T P m t v sopt keys w)"
proof (induction t arbitrary: m v sopt keys w)
  case (Leaf raw nm wt)
  then show ?case
    by (simp add: method_of_check quality_bindStatus quality_entered)
next
  case (Conj a b)
  have "quality (status_of (method_of m (build T P (Conj a b)) v sopt keys w)) =
      accumulate
        (quality (status_of (method_of m (and_raw (build T P a) (build T P b)) v (entered None keys sopt) w)))
        (own_event m (Some 0)
          (result_of (method_of m (and_raw (build T P a) (build T P b)) v (entered None keys sopt) w)))"
    by (simp add: and_c_def method_of_check quality_bindStatus)
  also have "\<dots> = accumulate (quality (entered None keys sopt)) (events T P m (Conj a b) v sopt keys w)"
    using Conj by (intro quality_and_raw) simp_all
  finally show ?case
    by (simp add: quality_entered)
qed

section \<open>Examples for the quality\<close>

lemma static_raw_status: "status_of (method_of m (static_raw p c) v s w) = s"
  by (cases m) (simp_all add: static_raw_def status_of_def)

lemma static_raw_result:
  "result_of (method_of m (static_raw p c) v s w) = Inr (if m = Matches then p v else c v)"
  by (cases m) (simp_all add: static_raw_def result_of_def)

theorem C6_quality_accumulates_witness:
  "quality (status_of (method_of Matches
      (build example_checks example_platform
        (Conj (Leaf (static_raw (\<lambda>v. JBool (isObject v)) js_Object) (Some ''object'') (Some (1 / 2)))
              (Leaf (static_raw (\<lambda>v. JBool (isArray v)) castArray) (Some ''array'') (Some 2))))
      (JObj []) None [] ())) = (- 1 :: rat)
   \<and> events example_checks example_platform Matches
        (Conj (Leaf (static_raw (\<lambda>v. JBool (isObject v)) js_Object) (Some ''object'') (Some (1 / 2)))
              (Leaf (static_raw (\<lambda>v. JBool (isArray v)) castArray) (Some ''array'') (Some 2)))
        (JObj []) None [] () = [(True, 1 / 2), (True, 1 / 2), (False, 2), (False, 0 :: rat)]"
proof -
  let ?t = "Conj (Leaf (static_raw (\<lambda>v. JBool (isObject v)) js_Object) (Some ''object'') (Some (1 / 2)))
              (Leaf (static_raw (\<lambda>v. JBool (isArray v)) castArray) (Some ''array'') (Some 2))
            :: (rat, unit) ctree"
  have k: "quality_kept ?t"
    by (simp add: static_raw_status)
  have e: "events example_checks example_platform Matches ?t (JObj []) None [] ()
      = [(True, 1 / 2), (True, 1 / 2), (False, 2), (False, 0)]"
    by (simp add: static_raw_def matches_check cast_check name_check bindStatus_def
      entered_def push_def pop_def succeeded_def new_QStatus_def Let_def js_Object_def
      returns_true_def result_of_def status_of_def world_of_def and_raw_def own_event_def
      recorded_def eff_weight_def)
  show ?thesis
    using C6_quality_accumulates [OF k, of Matches example_checks example_platform "JObj []" None "[]" "()"]
    by (simp only: e) (simp add: new_QStatus_def)
qed

theorem C7_and_weightless_witness:
  "quality (status_of (method_of Matches
      (and_c example_checks example_platform statics_object [DChecker spy]) JNull None [] 0))
     = (- (1 / 2) :: rat)
   \<and> quality (status_of (method_of Matches
      (and_raw statics_object spy) JNull (entered None [] None) 0)) = (- (1 / 2) :: rat)"
  using C7_and_weightless [of example_checks example_platform statics_object "[DChecker spy]"
      Matches JNull None "[]" 0]
  by (simp add: statics_object_def staticCheck_def static_raw_def spy_def matches_check cast_check
      name_check bindStatus_def entered_def push_def pop_def succeeded_def new_QStatus_def Let_def
      status_of_def and_raw_def eff_weight_def TYPE_WEIGHT_def)

theorem C10_default_weight_witness:
  "quality (status_of (method_of Matches (check (static_raw (\<lambda>v. JBool (isUndefined v)) (\<lambda>v. JUndefined))
        (Some ''error'') None) JUndefined None [] ())) = (1 :: rat)
   \<and> quality (status_of (method_of Matches (check (static_raw (\<lambda>v. JBool (isUndefined v)) (\<lambda>v. JUndefined))
        (Some ''error'') None) JNull None [] ())) = (- 1 :: rat)
   \<and> quality (status_of (method_of Cast (check thrower_raw None None) JNull None [] ())) = (- 1 :: rat)
   \<and> quality (status_of (method_of Cast (check silent_raw None None) JNull None [] ())) = (0 :: rat)"
  using C10_default_weight [of Matches "static_raw (\<lambda>v. JBool (isUndefined v)) (\<lambda>v. JUndefined)"
      "Some ''error''" JUndefined "None :: rat qstatus option" "[]" "()"]
    C10_default_weight [of Matches "static_raw (\<lambda>v. JBool (isUndefined v)) (\<lambda>v. JUndefined)"
      "Some ''error''" JNull "None :: rat qstatus option" "[]" "()"]
    C10_default_weight [of Cast thrower_raw None JNull "None :: rat qstatus option" "[]" "()"]
    C10_default_weight [of Cast silent_raw None JNull "None :: rat qstatus option" "[]" "()"]
  by (simp add: static_raw_def thrower_raw_def boom_def silent_raw_def silent_def recorded_def
      has_message_def entered_def push_def new_QStatus_def status_of_def result_of_def)


section \<open>The static checkers, unfolded\<close>

lemma static_cast:
  "cast (staticCheck nm p c msg wt) v sopt keys w =
     (Inr (c v), snd (succeeded True wt (case sopt of None \<Rightarrow> new_QStatus | Some s \<Rightarrow> s)), w)"
  by (simp add: staticCheck_def cast_check bindStatus_def static_raw_def push_def succeeded_def
      Let_def pop_def pop_times_append split: option.splits)

lemma static_cast0:
  "cast (staticCheck0 nm p c msg) v sopt keys w =
     (Inr (c v), (case sopt of None \<Rightarrow> new_Status | Some s \<Rightarrow> s), w)"
  by (simp add: staticCheck0_def cast_check0 bindStatus0_def static_raw_def push_def
      Let_def pop_def pop_times_append split: option.splits)



section \<open>C9: the string checker on 123 and on null\<close>

text \<open>
  C9 (as stated): the string checker's coerce returns \<open>"123"\<close> for 123 and the empty
  string for \<open>null\<close>.  The string checker of \<open>src/index.js\<close> coerces with
  \<open>String\<close>, and \<open>String(null)\<close> is \<open>"null"\<close>.
\<close>

theorem C9_string0_null:
  "result_of (cast (string0 example_platform) JNull None [] ()) = Inr (JStr ''null'')
   \<and> result_of (cast (string0 example_platform) JNull None [] ()) \<noteq> Inr (JStr [])"
  by (simp add: string0_def static_cast0 result_of_def)

text \<open>
  C9 (amended): the string checker of the scoring variant casts 123 to \<open>"123"\<close> and
  \<open>null\<close> to the empty string, by its coercion function and so by its hydrated
  \<open>cast\<close>; the string checker of \<open>src/index.js\<close> coerces 123 to \<open>"123"\<close> and
  \<open>null\<close> to \<open>"null"\<close>.
\<close>

theorem C9_string_cast:
  "string_cast P (JNum 123) = JStr ''123''
   \<and> string_cast P JNull = JStr []
   \<and> result_of (cast (statics_string P) (JNum 123) sopt keys w) = Inr (JStr ''123'')
   \<and> result_of (cast (statics_string P) JNull sopt keys w) = Inr (JStr [])
   \<and> result_of (cast (string0 P) (JNum 123) sopt0 keys w0) = Inr (JStr ''123'')
   \<and> result_of (cast (string0 P) JNull sopt0 keys w0) = Inr (JStr ''null'')"
  by (simp add: statics_string_def string0_def static_cast static_cast0 result_of_def
      string_cast_def int_to_string_def)

theorem C9_string_cast_witness:
  "result_of (cast (statics_string example_platform) (JNum 123) (None :: rat qstatus option) [] ())
     = Inr (JStr ''123'')
   \<and> result_of (cast (statics_string example_platform) JNull (None :: rat qstatus option) [] ())
     = Inr (JStr [])"
  using C9_string_cast [of example_platform "None :: rat qstatus option" "[]" "()" None "()"]
  by simp

section \<open>The coercions of the static checkers on accepted values\<close>

lemma js_Object_idem: "js_Object (js_Object v) = js_Object v"
  by (cases v) (simp_all add: js_Object_def)

lemma castArray_idem: "castArray (castArray v) = castArray v"
  by (cases v) (simp_all add: castArray_def)

lemma js_Boolean_idem: "js_Boolean (js_Boolean v) = js_Boolean v"
  by (simp add: js_Boolean_def)

lemma string_cast_idem: "string_cast P (string_cast P v) = string_cast P v"
  by (simp add: string_cast_def)

lemma isNumber_cases:
  assumes "isNumber v"
  obtains n where "v = JNum n" | "v = JNaN" | n where "v = JBox (JNum n)" | "v = JBox JNaN"
  using assms by (cases v rule: isNumber.cases) simp_all

lemma js_Number_idem: "isNumber v \<Longrightarrow> js_Number P (js_Number P v) = js_Number P v"
  by (erule isNumber_cases) simp_all

lemma date_cast_idem: "isDate v \<Longrightarrow> date_cast P (date_cast P v) = date_cast P v"
  by (simp add: date_cast_def)

lemma json_cast_idem:
  "js_truthy (isJson P v) \<Longrightarrow> json_cast P (json_cast P v) = json_cast P v"
  by (simp add: json_cast_def)







section \<open>C8: casting twice\<close>




section \<open>The checker \<open>as\<close> and the dispatcher\<close>







section \<open>The disjunction of the spec\<close>


lemma matches_disjunction0:
  "returns_true (matches (disjunction0 a b) v sopt keys w) =
     (case result_of (matches a v (Some (entered0 None keys sopt)) [] w) of
        Inl e \<Rightarrow> False
      | Inr r \<Rightarrow>
          js_truthy r \<or>
          returns_true (matches b v
            (Some (status_of (matches a v (Some (entered0 None keys sopt)) [] w))) []
            (world_of (matches a v (Some (entered0 None keys sopt)) [] w))))"
  by (simp add: disjunction0_def matches_check0 bindStatus0_def or_raw_def Let_def returns_true_def
      result_of_def status_of_def world_of_def push_entered0 failed_def or_any_def
      split: prod.splits sum.splits option.splits)

lemma decides_returns_true:
  assumes "decides c p"
  shows "returns_true (matches c v sopt keys w) = p v"
proof -
  obtain r where "result_of (matches c v sopt keys w) = Inr r" and "js_truthy r = p v"
    using assms unfolding decides_def by blast
  then show ?thesis
    by (simp add: returns_true_def)
qed


lemma decides_check0:
  assumes "\<And>v s w. \<exists>r. result_of (matches raw v s w) = Inr r \<and> js_truthy r = p v"
  shows "decides (check0 raw nm) p"
  unfolding decides_def
proof (intro allI)
  fix v sopt keys w
  obtain r s2 w2 where raw: "method_of Matches raw v (entered0 nm keys sopt) w = (Inr r, s2, w2)"
    and r: "js_truthy r = p v"
    using assms [of v "entered0 nm keys sopt" w]
    by (cases "matches raw v (entered0 nm keys sopt) w") (auto simp: result_of_def)
  show "\<exists>r. result_of (matches (check0 raw nm) v sopt keys w) = Inr r \<and> js_truthy r = p v"
    using r by (simp add: matches_check0 bindStatus0_return [OF raw] result_of_def)
qed

lemma or_raw_decides:
  assumes a: "decides a p" and b: "decides b q"
  shows "\<exists>r. result_of (matches (or_raw a b) v s w) = Inr r \<and> js_truthy r = (p v \<or> q v)"
proof -
  obtain ra sa wa where ra: "matches a v (Some s) [] w = (Inr ra, sa, wa)"
    and pa: "js_truthy ra = p v"
    using a unfolding decides_def
    by (metis result_of_def fst_conv prod_cases3)
  obtain rb sb wb where rb: "matches b v (Some sa) [] wa = (Inr rb, sb, wb)"
    and qb: "js_truthy rb = q v"
    using b unfolding decides_def
    by (metis result_of_def fst_conv prod_cases3)
  show ?thesis
    using pa qb by (simp add: or_raw_def ra rb result_of_def)
qed


lemma decides_disjunction0:
  "decides a p \<Longrightarrow> decides b q \<Longrightarrow> decides (disjunction0 a b) (\<lambda>v. p v \<or> q v)"
  unfolding disjunction0_def by (rule decides_check0) (rule or_raw_decides)


lemma decides_static0:
  "decides (staticCheck0 nm pr co msg) (\<lambda>v. js_truthy (pr v))"
  unfolding staticCheck0_def by (rule decides_check0) (simp add: static_raw_def result_of_def)



section \<open>The dispatcher with the disjunction of the spec\<close>


lemma as0_two:
  assumes "\<And>left xs. or_c T left [DArr xs] = or_spec0 T P left [DArr xs]"
  shows "as0 T P (d # e # ds) = disjunction0 (as1_0 T P d) (with_c T array0 [DArr (e # ds)])"
  by (simp add: assms or_spec0_def)



lemma as1_0_with_or0: "as1_0 (with_or0 B P) P d = as1_0 B P d"
  by (cases d) (simp_all add: with_or0_def)


text \<open>
  With the disjunction of the spec and a \<open>with\<close> that accepts arrays only, the checker
  that \<open>src/index.js\<close> makes of \<open>String\<close> and \<open>Number\<close> does not accept a number.
\<close>

lemma as0_String_Number:
  assumes T: "\<And>left xs. or_c T left [DArr xs] = or_spec0 T P left [DArr xs]"
    and W: "\<And>ds. decides (with_c T array0 [DArr ds]) (q ds)" "\<And>ds v. q ds v \<Longrightarrow> isArray v"
  shows "\<not> returns_true (matches (as0 T P [DString, DNumber]) (JNum n) sopt keys w)"
proof -
  have "decides (as0 T P [DString, DNumber]) (\<lambda>v. js_truthy (JBool (isString v)) \<or> q [DNumber] v)"
    unfolding as0_two [OF T] as1_0.simps string0_def
    by (intro decides_disjunction0 decides_static0 W)
  then have "returns_true (matches (as0 T P [DString, DNumber]) (JNum n) sopt keys w)
      = (js_truthy (JBool (isString (JNum n))) \<or> q [DNumber] (JNum n))"
    by (rule decides_returns_true)
  then show ?thesis
    using W(2) [of "[DNumber]" "JNum n"] by auto
qed

section \<open>C5: the dispatcher\<close>




end
